theory Spec2Isabelle
  imports Complex_Main
begin

section \<open>Data model of the dashboard page\<close>

text \<open>
  The page component keeps two collections, the alert list and the camera list, and a few
  scalars. An alert's status is the union type \<^verbatim>\<open>"active" | "resolved"\<close>, written only
  by the page itself, so it is a datatype. A camera's status is declared
  \<^verbatim>\<open>"normal" | "fire"\<close>, but \<^verbatim>\<open>performBackendScan\<close> stores the backend's string there
  through a cast, so at run time it is a string and is compared as one.
  JavaScript numbers that only hold integers (times in milliseconds, the counter) are
  integers or naturals; confidences and coordinates are reals, and nothing below depends
  on rounding.
\<close>

datatype alert_status = Active | Resolved

record FireAlert =
  aid :: string
  alocation :: string
  address :: string
  timestamp :: nat
  aconfidence :: real
  acoordinates :: "real \<times> real"
  cameraId :: string
  astatus :: alert_status

record SimulatedCamera =
  cid :: string
  cname :: string
  clocation :: string
  ccoordinates :: "real \<times> real"
  cstatus :: string
  cconfidence :: real
  imageUrl :: string
  fireEventTimes :: "int list"

record page_state =
  alerts :: "FireAlert list"
  cameras :: "SimulatedCamera list"
  selectedAlert :: "FireAlert option"
  responsesSent :: nat
  simulationTime :: int
  backendConnected :: bool
  useBackend :: bool

text \<open>The values of the \<^verbatim>\<open>useState\<close> calls at the first render.\<close>

definition initialState :: page_state where
  "initialState = \<lparr>alerts = [], cameras = [], selectedAlert = None, responsesSent = 0,
     simulationTime = 0, backendConnected = False, useBackend = True\<rparr>"

definition mkCamera :: "string \<Rightarrow> string \<Rightarrow> real \<times> real \<Rightarrow> string \<Rightarrow> int list \<Rightarrow> SimulatedCamera" where
  "mkCamera i n co url ts = \<lparr>cid = i, cname = n, clocation = ''Binan City'', ccoordinates = co,
     cstatus = ''normal'', cconfidence = 0, imageUrl = url, fireEventTimes = ts\<rparr>"

definition initialCameras :: "SimulatedCamera list" where
  "initialCameras =
    [mkCamera ''cam-1'' ''Downtown Block A'' (40.7505, -73.9737) ''/city-street-downtown.jpg'' [15000, 45000],
     mkCamera ''cam-2'' ''Warehouse District'' (40.745, -73.968) ''/warehouse-industrial-area.jpg'' [25000, 55000],
     mkCamera ''cam-3'' ''Residential Zone B'' (40.758, -73.9855) ''/residential-street.jpg'' [35000, 65000],
     mkCamera ''cam-4'' ''Park Avenue'' (40.7614, -73.9776) ''/park-urban.jpg'' [20000, 50000],
     mkCamera ''cam-5'' ''Hudson Valley'' (40.73, -74.006) ''/harbor-waterfront.jpg'' [40000, 70000]]"

text \<open>The mount effect: \<^verbatim>\<open>setCameras(initialCameras)\<close>.\<close>

definition mountCameras :: "page_state \<Rightarrow> page_state" where
  "mountCameras s = s\<lparr>cameras := initialCameras\<rparr>"

text \<open>
  The mount effect runs once, in the first commit, where the fire-window effect still sees
  the empty camera list and does nothing. The session proper starts here.
\<close>

definition mountedState :: page_state where
  "mountedState = mountCameras initialState"

text \<open>The clock effect's interval callback: \<^verbatim>\<open>setSimulationTime((prev) => prev + 1000)\<close>.\<close>

definition clockTick :: "page_state \<Rightarrow> page_state" where
  "clockTick s = s\<lparr>simulationTime := simulationTime s + 1000\<rparr>"

section \<open>Alert creation in the fire-window effect\<close>

text \<open>
  \<^verbatim>\<open>Date.now().toString()\<close>: the decimal digits of a non-negative integer.
\<close>

definition digitChar :: "nat \<Rightarrow> char" where
  "digitChar d = ''0123456789'' ! d"

function toString :: "nat \<Rightarrow> string" where
  "toString n = (if n < 10 then [digitChar n] else toString (n div 10) @ [digitChar (n mod 10)])"
  by pat_completeness auto
termination
  by (relation "measure (\<lambda>n. n)") auto

declare toString.simps [simp del]

text \<open>
  What one iteration of the loop reads from outside the state: \<^verbatim>\<open>Math.random()\<close>,
  \<^verbatim>\<open>Date.now()\<close> and \<^verbatim>\<open>new Date()\<close>. The effect is given one such reading per position
  in the camera list.
\<close>

record reading =
  mathRandom :: real
  dateNow :: nat
  newDate :: nat

definition isFireTimeWindow :: "int \<Rightarrow> SimulatedCamera \<Rightarrow> bool" where
  "isFireTimeWindow t camera = list_ex (\<lambda>fireTime. \<bar>t - fireTime\<bar> < 1500) (fireEventTimes camera)"

definition hasExistingAlert :: "FireAlert list \<Rightarrow> SimulatedCamera \<Rightarrow> bool" where
  "hasExistingAlert als camera = list_ex (\<lambda>a. cameraId a = cid camera \<and> astatus a = Active) als"

definition newAlert :: "reading \<Rightarrow> real \<Rightarrow> SimulatedCamera \<Rightarrow> FireAlert" where
  "newAlert r confidence camera =
     \<lparr>aid = toString (dateNow r) @ cid camera,
      alocation = cname camera,
      address = clocation camera,
      timestamp = newDate r,
      aconfidence = confidence,
      acoordinates = ccoordinates camera,
      cameraId = cid camera,
      astatus = Active\<rparr>"

definition setFire :: "string \<Rightarrow> real \<Rightarrow> SimulatedCamera list \<Rightarrow> SimulatedCamera list" where
  "setFire i confidence prev =
     map (\<lambda>c. if cid c = i then c\<lparr>cstatus := ''fire'', cconfidence := confidence\<rparr> else c) prev"

text \<open>
  \<^verbatim>\<open>cameras.forEach(...)\<close>. The loop walks the camera list of the render the effect
  belongs to and tests it against that render's alert list (\<open>t\<close>, \<open>snapA\<close> and the list
  walked are the snapshot); the two \<^verbatim>\<open>set...\<close> calls are functional updates, applied in
  order to the pending pair of lists, which is the accumulator.
\<close>

fun forEachCamera :: "(nat \<Rightarrow> reading) \<Rightarrow> int \<Rightarrow> FireAlert list \<Rightarrow> nat \<Rightarrow> SimulatedCamera list
    \<Rightarrow> SimulatedCamera list \<times> FireAlert list \<Rightarrow> SimulatedCamera list \<times> FireAlert list" where
  "forEachCamera env t snapA i [] acc = acc"
| "forEachCamera env t snapA i (camera # rest) acc =
     (if isFireTimeWindow t camera \<and> cstatus camera = ''normal'' then
        (let confidence = 0.8 + mathRandom (env i) * 0.2 in
         if \<not> hasExistingAlert snapA camera then
           forEachCamera env t snapA (Suc i) rest
             (setFire (cid camera) confidence (fst acc), newAlert (env i) confidence camera # snd acc)
         else forEachCamera env t snapA (Suc i) rest acc)
      else forEachCamera env t snapA (Suc i) rest acc)"

text \<open>
  The three tests of the loop body taken together, and the alerts the loop creates, in the
  order in which it creates them. These two are not in the source; they describe the loop
  and are related to it by \<open>forEachCamera_alerts\<close> below.
\<close>

definition triggers :: "int \<Rightarrow> FireAlert list \<Rightarrow> SimulatedCamera \<Rightarrow> bool" where
  "triggers t snapA camera =
     (isFireTimeWindow t camera \<and> cstatus camera = ''normal'' \<and> \<not> hasExistingAlert snapA camera)"

fun createdAlerts :: "(nat \<Rightarrow> reading) \<Rightarrow> int \<Rightarrow> FireAlert list \<Rightarrow> nat \<Rightarrow> SimulatedCamera list \<Rightarrow> FireAlert list" where
  "createdAlerts env t snapA i [] = []"
| "createdAlerts env t snapA i (camera # rest) =
     (if triggers t snapA camera
      then newAlert (env i) (0.8 + mathRandom (env i) * 0.2) camera # createdAlerts env t snapA (Suc i) rest
      else createdAlerts env t snapA (Suc i) rest)"

text \<open>The effect of \<^verbatim>\<open>src/app/page.tsx\<close> (no backend): the loop, unguarded.\<close>

definition fireWindowEffect :: "(nat \<Rightarrow> reading) \<Rightarrow> page_state \<Rightarrow> page_state" where
  "fireWindowEffect env s =
     (let r = forEachCamera env (simulationTime s) (alerts s) 0 (cameras s) (cameras s, alerts s)
      in s\<lparr>cameras := fst r, alerts := snd r\<rparr>)"

text \<open>
  The effect of the backend-aware page: the same loop under
  \<^verbatim>\<open>if (!backendConnected || !useBackend)\<close>.
\<close>

definition simulatedMode :: "page_state \<Rightarrow> bool" where
  "simulatedMode s = (\<not> backendConnected s \<or> \<not> useBackend s)"

definition fireWindowEffectBackend :: "(nat \<Rightarrow> reading) \<Rightarrow> page_state \<Rightarrow> page_state" where
  "fireWindowEffectBackend env s = (if simulatedMode s then fireWindowEffect env s else s)"

section \<open>Backend calls\<close>

text \<open>
  The hook \<^verbatim>\<open>useFireDetectionAPI\<close> is not part of the sources at hand, so what its three
  calls return is a parameter: a health probe yields a boolean; \<^verbatim>\<open>scanAll\<close> and
  \<^verbatim>\<open>detectFire\<close> either throw, or return a falsy value, or return a result.
\<close>

record scanEntry =
  camera_id :: string
  sstatus :: string
  sconfidence :: real

datatype scan_outcome = ScanThrew | ScanNull | ScanResult "scanEntry list"

datatype detect_outcome = DetectThrew | DetectNull | DetectResult real

definition checkBackend :: "bool \<Rightarrow> page_state \<Rightarrow> page_state" where
  "checkBackend isHealthy s = s\<lparr>backendConnected := isHealthy\<rparr>"

definition applyScan :: "scanEntry list \<Rightarrow> SimulatedCamera list \<Rightarrow> SimulatedCamera list" where
  "applyScan result prev =
     map (\<lambda>camera.
       case find (\<lambda>c. camera_id c = cid camera) result of
         Some backendStatus \<Rightarrow> camera\<lparr>cstatus := sstatus backendStatus, cconfidence := sconfidence backendStatus\<rparr>
       | None \<Rightarrow> camera) prev"

definition performBackendScan :: "scan_outcome \<Rightarrow> page_state \<Rightarrow> page_state" where
  "performBackendScan scanAll s =
     (if \<not> backendConnected s then s\<lparr>useBackend := False\<rparr>
      else case scanAll of
        ScanResult result \<Rightarrow> s\<lparr>cameras := applyScan result (cameras s)\<rparr>
      | ScanNull \<Rightarrow> s
      | ScanThrew \<Rightarrow> s\<lparr>useBackend := False\<rparr>)"

definition handleVideoViewerOpen :: "(string \<Rightarrow> detect_outcome) \<Rightarrow> FireAlert option \<Rightarrow> page_state \<Rightarrow> page_state" where
  "handleVideoViewerOpen detectFire alert s =
     (case alert of
        None \<Rightarrow> s
      | Some al \<Rightarrow>
          if backendConnected s \<and> useBackend s then
            (case find (\<lambda>c. cid c = cameraId al) (cameras s) of
               None \<Rightarrow> s
             | Some camera \<Rightarrow>
                 (case detectFire (imageUrl camera) of
                    DetectResult accuracy \<Rightarrow> s\<lparr>selectedAlert := Some (al\<lparr>aconfidence := accuracy\<rparr>)\<rparr>
                  | DetectNull \<Rightarrow> s
                  | DetectThrew \<Rightarrow> s))
          else s\<lparr>selectedAlert := Some al\<rparr>)"

section \<open>Operator commands\<close>

definition resolveAlerts :: "string \<Rightarrow> FireAlert list \<Rightarrow> FireAlert list" where
  "resolveAlerts alertId prev = map (\<lambda>alert. if aid alert = alertId then alert\<lparr>astatus := Resolved\<rparr> else alert) prev"

definition resetFire :: "SimulatedCamera list \<Rightarrow> SimulatedCamera list" where
  "resetFire prev =
     map (\<lambda>camera. if cstatus camera = ''fire'' then camera\<lparr>cstatus := ''normal'', cconfidence := 0\<rparr> else camera) prev"

definition handleResolveAlert :: "string \<Rightarrow> page_state \<Rightarrow> page_state" where
  "handleResolveAlert alertId s =
     s\<lparr>alerts := resolveAlerts alertId (alerts s),
       cameras := resetFire (cameras s),
       selectedAlert := None\<rparr>"

definition handleRequestResponse :: "FireAlert \<Rightarrow> page_state \<Rightarrow> page_state" where
  "handleRequestResponse alert s = handleResolveAlert (aid alert) (s\<lparr>responsesSent := responsesSent s + 1\<rparr>)"

definition closeViewer :: "page_state \<Rightarrow> page_state" where
  "closeViewer s = s\<lparr>selectedAlert := None\<rparr>"

section \<open>The page as a transition system\<close>

text \<open>
  After mounting, every state change of the page is one of these events; React runs
  them one at a time, and an effect sees the state of the render it follows. The page
  without a backend is the same system where no probe ever succeeds and no scan is
  requested.
\<close>

datatype event =
    Tick
  | FireWindow "nat \<Rightarrow> reading"
  | HealthProbe bool
  | BackendScan scan_outcome
  | OpenAlert "string \<Rightarrow> detect_outcome" "FireAlert option"
  | CloseViewer
  | ResolveAlert string
  | RequestResponse FireAlert

fun step :: "event \<Rightarrow> page_state \<Rightarrow> page_state" where
  "step Tick s = clockTick s"
| "step (FireWindow env) s = fireWindowEffectBackend env s"
| "step (HealthProbe b) s = checkBackend b s"
| "step (BackendScan r) s = performBackendScan r s"
| "step (OpenAlert d a) s = handleVideoViewerOpen d a s"
| "step CloseViewer s = closeViewer s"
| "step (ResolveAlert i) s = handleResolveAlert i s"
| "step (RequestResponse a) s = handleRequestResponse a s"

fun run :: "event list \<Rightarrow> page_state \<Rightarrow> page_state" where
  "run [] s = s"
| "run (e # es) s = run es (step e s)"

fun isScan :: "event \<Rightarrow> bool" where
  "isScan (BackendScan r) = True"
| "isScan e = False"

fun isCommand :: "event \<Rightarrow> bool" where
  "isCommand (ResolveAlert i) = True"
| "isCommand (RequestResponse a) = True"
| "isCommand e = False"

section \<open>State predicates\<close>

definition activeFor :: "string \<Rightarrow> FireAlert list \<Rightarrow> bool" where
  "activeFor k als = list_ex (\<lambda>a. cameraId a = k \<and> astatus a = Active) als"

definition fireIffActive :: "page_state \<Rightarrow> bool" where
  "fireIffActive s = list_all (\<lambda>c. (cstatus c = ''fire'') = activeFor (cid c) (alerts s)) (cameras s)"

definition fireImpliesActive :: "page_state \<Rightarrow> bool" where
  "fireImpliesActive s = list_all (\<lambda>c. cstatus c = ''fire'' \<longrightarrow> activeFor (cid c) (alerts s)) (cameras s)"

definition activeCount :: "string \<Rightarrow> FireAlert list \<Rightarrow> nat" where
  "activeCount k als = length (filter (\<lambda>a. cameraId a = k \<and> astatus a = Active) als)"

section \<open>Concrete states used to exercise the theorems\<close>

definition exReading :: reading where
  "exReading = \<lparr>mathRandom = 0.5, dateNow = 1730000000123, newDate = 1730000000124\<rparr>"

definition exCamA :: SimulatedCamera where
  "exCamA = mkCamera ''cam-1'' ''Downtown Block A'' (40.7505, -73.9737) ''/city-street-downtown.jpg'' [15000, 45000]"

definition exCamB :: SimulatedCamera where
  "exCamB = mkCamera ''cam-4'' ''Park Avenue'' (40.7614, -73.9776) ''/park-urban.jpg'' [20000, 50000]"

definition exAlertA :: FireAlert where
  "exAlertA = newAlert exReading 0.9 exCamA"

definition exAlertB :: FireAlert where
  "exAlertB = newAlert exReading 0.9 exCamB"

text \<open>Both cameras burning, each with its active alert, the detail view open on the second.\<close>

definition exTwoFires :: page_state where
  "exTwoFires = \<lparr>alerts = [exAlertB, exAlertA],
     cameras = [exCamA\<lparr>cstatus := ''fire'', cconfidence := 0.9\<rparr>, exCamB\<lparr>cstatus := ''fire'', cconfidence := 0.9\<rparr>],
     selectedAlert = Some exAlertB, responsesSent = 0, simulationTime = 20000,
     backendConnected = False, useBackend = True\<rparr>"

text \<open>One alert, already resolved, and three responses sent so far.\<close>

definition exResolved :: page_state where
  "exResolved = \<lparr>alerts = [exAlertA\<lparr>astatus := Resolved\<rparr>], cameras = [exCamA, exCamB],
     selectedAlert = None, responsesSent = 3, simulationTime = 30000,
     backendConnected = False, useBackend = True\<rparr>"

text \<open>A scan response that says nothing about \<^verbatim>\<open>cam-3\<close>.\<close>

definition exScan :: "scanEntry list" where
  "exScan = [\<lparr>camera_id = ''cam-1'', sstatus = ''fire'', sconfidence = 0.93\<rparr>,
             \<lparr>camera_id = ''cam-2'', sstatus = ''normal'', sconfidence = 0\<rparr>]"

definition exConnected :: page_state where
  "exConnected = run [HealthProbe True] mountedState"

text \<open>
  A session of the page: nineteen clock ticks, the fire-window effect after each, every
  reading the same. \<^verbatim>\<open>cam-1\<close> catches fire at 14000 ms and \<^verbatim>\<open>cam-4\<close> at 19000 ms, and
  \<open>exBurning\<close> is the state the session ends in.
\<close>

definition exEnv :: "nat \<Rightarrow> reading" where
  "exEnv = (\<lambda>i. exReading)"

definition exSession :: "event list" where
  "exSession = concat (replicate 19 [Tick, FireWindow exEnv])"

definition exBurning :: page_state where
  "exBurning = mountedState\<lparr>alerts := [exAlertB, exAlertA],
     cameras := setFire ''cam-4'' 0.9 (setFire ''cam-1'' 0.9 initialCameras),
     simulationTime := 19000\<rparr>"

text \<open>
  One camera with two scheduled offsets 800 ms apart, one second before the first window
  opens, and four ticks with their effects.
\<close>

definition exDouble :: page_state where
  "exDouble = initialState\<lparr>
     cameras := [mkCamera ''cam-1'' ''Downtown Block A'' (40.7505, -73.9737) ''/city-street-downtown.jpg'' [15000, 15800]],
     simulationTime := 13000\<rparr>"

definition exFourTicks :: "event list" where
  "exFourTicks = concat (replicate 4 [Tick, FireWindow exEnv])"

text \<open>Two cameras whose windows are open at the same tick.\<close>

definition exCamC :: SimulatedCamera where
  "exCamC = mkCamera ''cam-2'' ''Warehouse District'' (40.745, -73.968) ''/warehouse-industrial-area.jpg'' [15500, 55000]"

definition exPair :: page_state where
  "exPair = initialState\<lparr>cameras := [exCamA, exCamC], simulationTime := 15000\<rparr>"

section \<open>Auxiliary facts\<close>

lemmas ex_defs = exReading_def exCamA_def exCamB_def exAlertA_def exAlertB_def exTwoFires_def
  exResolved_def exScan_def exConnected_def mkCamera_def newAlert_def

lemmas eval_defs = mountedState_def mountCameras_def initialState_def initialCameras_def mkCamera_def
  clockTick_def fireWindowEffectBackend_def fireWindowEffect_def simulatedMode_def
  isFireTimeWindow_def hasExistingAlert_def newAlert_def setFire_def exEnv_def exReading_def Let_def

lemma toString_ex: "toString 1730000000123 = ''1730000000123''"
  by (simp add: toString.simps digitChar_def)

lemma resetFire_length: "length (resetFire cs) = length cs"
  by (simp add: resetFire_def)

lemma resetFire_nth: "i < length cs \<Longrightarrow> resetFire cs ! i =
   (if cstatus (cs ! i) = ''fire'' then (cs ! i)\<lparr>cstatus := ''normal'', cconfidence := 0\<rparr> else cs ! i)"
  by (simp add: resetFire_def)

lemma resetFire_no_fire: "c \<in> set (resetFire cs) \<Longrightarrow> cstatus c \<noteq> ''fire''"
  by (auto simp: resetFire_def)

lemma resolveAlerts_length: "length (resolveAlerts k as) = length as"
  by (simp add: resolveAlerts_def)

lemma resolveAlerts_nth: "i < length as \<Longrightarrow> resolveAlerts k as ! i =
   (if aid (as ! i) = k then (as ! i)\<lparr>astatus := Resolved\<rparr> else as ! i)"
  by (simp add: resolveAlerts_def)

lemma resolveAlerts_matching:
  assumes "a \<in> set (resolveAlerts k as)" and "aid a = k"
  shows "astatus a = Resolved"
proof -
  from assms(1) obtain b where b: "a = (if aid b = k then b\<lparr>astatus := Resolved\<rparr> else b)"
    unfolding resolveAlerts_def set_map by blast
  show ?thesis
  proof (cases "aid b = k")
    case True
    with b show ?thesis by simp
  next
    case False
    with b assms(2) show ?thesis by simp
  qed
qed

lemma resolveAlerts_noop: "\<forall>a\<in>set as. aid a = k \<longrightarrow> astatus a = Resolved \<Longrightarrow> resolveAlerts k as = as"
  unfolding resolveAlerts_def by (induction as) simp_all

lemma handleResolveAlert_fields:
  "alerts (handleResolveAlert k s) = resolveAlerts k (alerts s)"
  "cameras (handleResolveAlert k s) = resetFire (cameras s)"
  "selectedAlert (handleResolveAlert k s) = None"
  "responsesSent (handleResolveAlert k s) = responsesSent s"
  "simulationTime (handleResolveAlert k s) = simulationTime s"
  "backendConnected (handleResolveAlert k s) = backendConnected s"
  "useBackend (handleResolveAlert k s) = useBackend s"
  by (simp_all add: handleResolveAlert_def)

lemma find_absent: "k \<notin> camera_id ` set r \<Longrightarrow> find (\<lambda>c. camera_id c = k) r = None"
  by (induction r) auto

subsection \<open>The loop of the fire-window effect\<close>

lemma forEachCamera_alerts:
  "snd (forEachCamera env t snapA i rest acc) = rev (createdAlerts env t snapA i rest) @ snd acc"
  by (induction rest arbitrary: i acc) (simp_all add: triggers_def Let_def)

lemma setFire_ids: "map cid (setFire k conf cs) = map cid cs"
  by (induction cs) (simp_all add: setFire_def)

lemma forEachCamera_ids:
  "map cid (fst (forEachCamera env t snapA i rest acc)) = map cid (fst acc)"
  by (induction rest arbitrary: i acc) (simp_all add: Let_def setFire_ids)

lemma setFire_cases:
  "c' \<in> set (setFire k conf cs) \<Longrightarrow> c' \<in> set cs \<and> cid c' \<noteq> k \<or> cstatus c' = ''fire'' \<and> cid c' = k"
  by (induction cs) (auto simp: setFire_def split: if_splits)

lemma forEachCamera_cases:
  "c' \<in> set (fst (forEachCamera env t snapA i rest acc)) \<Longrightarrow>
     c' \<in> set (fst acc) \<or>
     (cstatus c' = ''fire'' \<and> (\<exists>camera\<in>set rest. triggers t snapA camera \<and> cid camera = cid c'))"
proof (induction rest arbitrary: i acc)
  case Nil
  then show ?case by simp
next
  case (Cons camera rest)
  show ?case
  proof (cases "triggers t snapA camera")
    case True
    let ?conf = "0.8 + mathRandom (env i) * 0.2"
    let ?acc = "(setFire (cid camera) ?conf (fst acc), newAlert (env i) ?conf camera # snd acc)"
    from Cons.prems True have "c' \<in> set (fst (forEachCamera env t snapA (Suc i) rest ?acc))"
      by (simp add: triggers_def Let_def)
    from Cons.IH[OF this] have "c' \<in> set (setFire (cid camera) ?conf (fst acc)) \<or>
      (cstatus c' = ''fire'' \<and> (\<exists>camera\<in>set rest. triggers t snapA camera \<and> cid camera = cid c'))"
      by simp
    then show ?thesis
    proof
      assume "c' \<in> set (setFire (cid camera) ?conf (fst acc))"
      from setFire_cases[OF this] True show ?thesis by auto
    next
      assume "cstatus c' = ''fire'' \<and> (\<exists>camera\<in>set rest. triggers t snapA camera \<and> cid camera = cid c')"
      then show ?thesis by auto
    qed
  next
    case False
    with Cons.prems have "c' \<in> set (fst (forEachCamera env t snapA (Suc i) rest acc))"
      by (auto simp: triggers_def Let_def split: if_splits)
    from Cons.IH[OF this] show ?thesis by auto
  qed
qed

lemma forEachCamera_triggered_fire:
  "c' \<in> set (fst (forEachCamera env t snapA i rest acc)) \<Longrightarrow>
   \<exists>camera\<in>set rest. triggers t snapA camera \<and> cid camera = cid c' \<Longrightarrow> cstatus c' = ''fire''"
proof (induction rest arbitrary: i acc)
  case Nil
  then show ?case by simp
next
  case (Cons camera rest)
  show ?case
  proof (cases "triggers t snapA camera")
    case True
    let ?conf = "0.8 + mathRandom (env i) * 0.2"
    let ?acc = "(setFire (cid camera) ?conf (fst acc), newAlert (env i) ?conf camera # snd acc)"
    from Cons.prems(1) True have in': "c' \<in> set (fst (forEachCamera env t snapA (Suc i) rest ?acc))"
      by (simp add: triggers_def Let_def)
    show ?thesis
    proof (cases "cid camera = cid c'")
      case True
      from forEachCamera_cases[OF in'] show ?thesis
      proof
        assume "c' \<in> set (fst ?acc)"
        then have "c' \<in> set (setFire (cid camera) ?conf (fst acc))" by simp
        from setFire_cases[OF this] True show ?thesis by auto
      next
        assume "cstatus c' = ''fire'' \<and> (\<exists>camera\<in>set rest. triggers t snapA camera \<and> cid camera = cid c')"
        then show ?thesis by simp
      qed
    next
      case False
      with Cons.prems(2) have "\<exists>camera\<in>set rest. triggers t snapA camera \<and> cid camera = cid c'" by auto
      from Cons.IH[OF in' this] show ?thesis .
    qed
  next
    case False
    with Cons.prems(1) have in': "c' \<in> set (fst (forEachCamera env t snapA (Suc i) rest acc))"
      by (auto simp: triggers_def Let_def split: if_splits)
    from False Cons.prems(2) have "\<exists>camera\<in>set rest. triggers t snapA camera \<and> cid camera = cid c'" by auto
    from Cons.IH[OF in' this] show ?thesis .
  qed
qed

lemma activeFor_append: "activeFor k (xs @ ys) = (activeFor k xs \<or> activeFor k ys)"
  by (simp add: activeFor_def list_ex_iff) blast

lemma activeFor_rev: "activeFor k (rev xs) = activeFor k xs"
  by (simp add: activeFor_def list_ex_iff)

lemma activeFor_created:
  "activeFor k (createdAlerts env t snapA i rest) = (\<exists>camera\<in>set rest. triggers t snapA camera \<and> cid camera = k)"
  by (induction rest arbitrary: i) (auto simp: activeFor_def newAlert_def)

lemma activeCount_append: "activeCount k (xs @ ys) = activeCount k xs + activeCount k ys"
  by (simp add: activeCount_def)

lemma activeCount_rev: "activeCount k (rev xs) = activeCount k xs"
  by (simp add: activeCount_def flip: rev_filter)

lemma activeCount_zero: "(activeCount k as = 0) = (\<not> activeFor k as)"
  by (induction as) (auto simp: activeCount_def activeFor_def)

lemma activeCount_created_le:
  "distinct (map cid rest) \<Longrightarrow> activeCount k (createdAlerts env t snapA i rest) \<le> 1"
proof (induction rest arbitrary: i)
  case Nil
  then show ?case by (simp add: activeCount_def)
next
  case (Cons camera rest)
  show ?case
  proof (cases "triggers t snapA camera \<and> cid camera = k")
    case True
    from Cons.prems have "cid camera \<notin> cid ` set rest" by simp
    with True have "\<not> (\<exists>c\<in>set rest. triggers t snapA c \<and> cid c = k)" by blast
    then have "activeCount k (createdAlerts env t snapA (Suc i) rest) = 0"
      by (simp add: activeCount_zero activeFor_created)
    with True show ?thesis by (simp add: activeCount_def newAlert_def)
  next
    case False
    from Cons.prems have "distinct (map cid rest)" by simp
    from Cons.IH[OF this, of "Suc i"] False show ?thesis
      by (auto simp: activeCount_def newAlert_def)
  qed
qed

lemma triggers_no_active: "triggers t snapA camera \<Longrightarrow> \<not> activeFor (cid camera) snapA"
  by (simp add: triggers_def hasExistingAlert_def activeFor_def)

lemma fireWindowEffect_fields:
  "alerts (fireWindowEffect env s) = rev (createdAlerts env (simulationTime s) (alerts s) 0 (cameras s)) @ alerts s"
  "map cid (cameras (fireWindowEffect env s)) = map cid (cameras s)"
  "cameras (fireWindowEffect env s) = fst (forEachCamera env (simulationTime s) (alerts s) 0 (cameras s) (cameras s, alerts s))"
  "selectedAlert (fireWindowEffect env s) = selectedAlert s"
  "responsesSent (fireWindowEffect env s) = responsesSent s"
  "simulationTime (fireWindowEffect env s) = simulationTime s"
  "backendConnected (fireWindowEffect env s) = backendConnected s"
  "useBackend (fireWindowEffect env s) = useBackend s"
  by (simp_all add: fireWindowEffect_def Let_def forEachCamera_alerts forEachCamera_ids)

lemma handleVideoViewerOpen_fields:
  "alerts (handleVideoViewerOpen d a s) = alerts s"
  "cameras (handleVideoViewerOpen d a s) = cameras s"
  "backendConnected (handleVideoViewerOpen d a s) = backendConnected s"
  "useBackend (handleVideoViewerOpen d a s) = useBackend s"
  by (simp_all add: handleVideoViewerOpen_def split: option.splits detect_outcome.splits)

lemma handleRequestResponse_fields:
  "alerts (handleRequestResponse a s) = resolveAlerts (aid a) (alerts s)"
  "cameras (handleRequestResponse a s) = resetFire (cameras s)"
  "backendConnected (handleRequestResponse a s) = backendConnected s"
  "useBackend (handleRequestResponse a s) = useBackend s"
  by (simp_all add: handleRequestResponse_def handleResolveAlert_def)

lemma performBackendScan_fields:
  "alerts (performBackendScan r s) = alerts s"
  "map cid (cameras (performBackendScan r s)) = map cid (cameras s)"
  "backendConnected (performBackendScan r s) = backendConnected s"
  by (simp_all add: performBackendScan_def applyScan_def comp_def split: scan_outcome.splits option.splits)

lemma resetFire_ids: "map cid (resetFire cs) = map cid cs"
  by (induction cs) (simp_all add: resetFire_def)

lemma activeCount_resolveAlerts: "activeCount k (resolveAlerts i as) \<le> activeCount k as"
  by (induction as) (simp_all add: activeCount_def resolveAlerts_def)

lemma activeCount_fireWindowEffect:
  assumes "distinct (map cid (cameras s))" and "activeCount k (alerts s) \<le> 1"
  shows "activeCount k (alerts (fireWindowEffect env s)) \<le> 1"
proof (cases "activeFor k (alerts s)")
  case True
  then have "\<not> (\<exists>camera\<in>set (cameras s). triggers (simulationTime s) (alerts s) camera \<and> cid camera = k)"
    using triggers_no_active by blast
  then have "activeCount k (createdAlerts env (simulationTime s) (alerts s) 0 (cameras s)) = 0"
    by (simp add: activeCount_zero activeFor_created)
  with assms(2) show ?thesis
    by (simp add: fireWindowEffect_fields activeCount_append activeCount_rev)
next
  case False
  then have "activeCount k (alerts s) = 0" by (simp add: activeCount_zero)
  with activeCount_created_le[OF assms(1), of k env "simulationTime s" "alerts s" 0] show ?thesis
    by (simp add: fireWindowEffect_fields activeCount_append activeCount_rev)
qed

lemma step_ledger_inv:
  assumes "distinct (map cid (cameras s))" and "\<forall>k. activeCount k (alerts s) \<le> 1"
  shows "distinct (map cid (cameras (step e s))) \<and> (\<forall>k. activeCount k (alerts (step e s)) \<le> 1)"
proof (cases e)
  case Tick
  with assms show ?thesis by (simp add: clockTick_def)
next
  case (FireWindow env)
  with assms activeCount_fireWindowEffect[OF assms(1), of _ env] show ?thesis
    by (simp add: fireWindowEffectBackend_def fireWindowEffect_fields(2))
next
  case (HealthProbe b)
  with assms show ?thesis by (simp add: checkBackend_def)
next
  case (BackendScan r)
  with assms show ?thesis by (simp add: performBackendScan_fields)
next
  case (OpenAlert d a)
  with assms show ?thesis by (simp add: handleVideoViewerOpen_fields)
next
  case CloseViewer
  with assms show ?thesis by (simp add: closeViewer_def)
next
  case (ResolveAlert i)
  with assms activeCount_resolveAlerts[of _ i "alerts s"] show ?thesis
    by (simp add: handleResolveAlert_fields resetFire_ids) (meson le_trans)
next
  case (RequestResponse a)
  with assms activeCount_resolveAlerts[of _ "aid a" "alerts s"] show ?thesis
    by (simp add: handleRequestResponse_fields resetFire_ids) (meson le_trans)
qed

lemma run_ledger_inv:
  "distinct (map cid (cameras s)) \<Longrightarrow> \<forall>k. activeCount k (alerts s) \<le> 1 \<Longrightarrow>
   distinct (map cid (cameras (run evs s))) \<and> (\<forall>k. activeCount k (alerts (run evs s)) \<le> 1)"
proof (induction evs arbitrary: s)
  case Nil
  then show ?case by simp
next
  case (Cons e evs)
  from step_ledger_inv[OF Cons.prems] Cons.IH[of "step e s"] show ?case by simp
qed

lemma mountedState_ledger_inv:
  "distinct (map cid (cameras mountedState)) \<and> (\<forall>k. activeCount k (alerts mountedState) \<le> 1)"
  by (simp add: mountedState_def mountCameras_def initialState_def initialCameras_def mkCamera_def activeCount_def)

lemma fireIffActive_fireWindowEffect:
  assumes "fireIffActive s"
  shows "fireIffActive (fireWindowEffect env s)"
proof -
  let ?t = "simulationTime s"
  have "(cstatus c' = ''fire'') = activeFor (cid c') (alerts (fireWindowEffect env s))"
    if in': "c' \<in> set (cameras (fireWindowEffect env s))" for c'
  proof (cases "\<exists>camera\<in>set (cameras s). triggers ?t (alerts s) camera \<and> cid camera = cid c'")
    case True
    from in' have "c' \<in> set (fst (forEachCamera env ?t (alerts s) 0 (cameras s) (cameras s, alerts s)))"
      by (simp add: fireWindowEffect_fields(3))
    from forEachCamera_triggered_fire[OF this True] True show ?thesis
      by (simp add: fireWindowEffect_fields(1) activeFor_append activeFor_rev activeFor_created)
  next
    case False
    from in' have "c' \<in> set (fst (forEachCamera env ?t (alerts s) 0 (cameras s) (cameras s, alerts s)))"
      by (simp add: fireWindowEffect_fields(3))
    from forEachCamera_cases[OF this] False have "c' \<in> set (cameras s)" by auto
    with assms have "(cstatus c' = ''fire'') = activeFor (cid c') (alerts s)"
      by (simp add: fireIffActive_def list_all_iff)
    moreover from False have "\<not> activeFor (cid c') (createdAlerts env ?t (alerts s) 0 (cameras s))"
      by (simp add: activeFor_created)
    ultimately show ?thesis
      by (simp add: fireWindowEffect_fields(1) activeFor_append activeFor_rev)
  qed
  then show ?thesis by (simp add: fireIffActive_def list_all_iff)
qed

lemma fireImpliesActive_fireWindowEffect:
  assumes "fireImpliesActive s"
  shows "fireImpliesActive (fireWindowEffect env s)"
proof -
  let ?t = "simulationTime s"
  have "activeFor (cid c') (alerts (fireWindowEffect env s))"
    if in': "c' \<in> set (cameras (fireWindowEffect env s))" and fire: "cstatus c' = ''fire''" for c'
  proof -
    from in' have "c' \<in> set (fst (forEachCamera env ?t (alerts s) 0 (cameras s) (cameras s, alerts s)))"
      by (simp add: fireWindowEffect_fields(3))
    from forEachCamera_cases[OF this]
    have "c' \<in> set (cameras s) \<or> (\<exists>camera\<in>set (cameras s). triggers ?t (alerts s) camera \<and> cid camera = cid c')"
      by auto
    then show ?thesis
    proof
      assume "c' \<in> set (cameras s)"
      with assms fire have "activeFor (cid c') (alerts s)"
        by (simp add: fireImpliesActive_def list_all_iff)
      then show ?thesis
        by (simp add: fireWindowEffect_fields(1) activeFor_append)
    next
      assume "\<exists>camera\<in>set (cameras s). triggers ?t (alerts s) camera \<and> cid camera = cid c'"
      then show ?thesis
        by (simp add: fireWindowEffect_fields(1) activeFor_append activeFor_rev activeFor_created)
    qed
  qed
  then show ?thesis by (simp add: fireImpliesActive_def list_all_iff)
qed

lemma fireImpliesActive_resetFire:
  "cameras s' = resetFire cs \<Longrightarrow> fireImpliesActive s'"
  using resetFire_no_fire by (simp add: fireImpliesActive_def list_all_iff)

lemma same_collections_iff:
  "fireIffActive s \<Longrightarrow> alerts s' = alerts s \<Longrightarrow> cameras s' = cameras s \<Longrightarrow> fireIffActive s'"
  by (simp add: fireIffActive_def)

lemma same_collections_implies:
  "fireImpliesActive s \<Longrightarrow> alerts s' = alerts s \<Longrightarrow> cameras s' = cameras s \<Longrightarrow> fireImpliesActive s'"
  by (simp add: fireImpliesActive_def)

lemma step_fireIffActive:
  assumes "fireIffActive s" and "\<not> isScan e" and "\<not> isCommand e"
  shows "fireIffActive (step e s)"
proof (cases e)
  case Tick
  then show ?thesis
    by (simp add: same_collections_iff[OF assms(1)] clockTick_def)
next
  case (FireWindow env)
  with assms fireIffActive_fireWindowEffect[OF assms(1), of env] show ?thesis
    by (simp add: fireWindowEffectBackend_def)
next
  case (HealthProbe b)
  then show ?thesis
    by (simp add: same_collections_iff[OF assms(1)] checkBackend_def)
next
  case (BackendScan r)
  with assms show ?thesis by simp
next
  case (OpenAlert d a)
  then show ?thesis
    by (simp add: same_collections_iff[OF assms(1)] handleVideoViewerOpen_fields)
next
  case CloseViewer
  then show ?thesis
    by (simp add: same_collections_iff[OF assms(1)] closeViewer_def)
next
  case (ResolveAlert i)
  with assms show ?thesis by simp
next
  case (RequestResponse a)
  with assms show ?thesis by simp
qed

lemma step_fireImpliesActive:
  assumes "fireImpliesActive s" and "\<not> isScan e"
  shows "fireImpliesActive (step e s)"
proof (cases e)
  case Tick
  then show ?thesis
    by (simp add: same_collections_implies[OF assms(1)] clockTick_def)
next
  case (FireWindow env)
  with assms fireImpliesActive_fireWindowEffect[OF assms(1), of env] show ?thesis
    by (simp add: fireWindowEffectBackend_def)
next
  case (HealthProbe b)
  then show ?thesis
    by (simp add: same_collections_implies[OF assms(1)] checkBackend_def)
next
  case (BackendScan r)
  with assms show ?thesis by simp
next
  case (OpenAlert d a)
  then show ?thesis
    by (simp add: same_collections_implies[OF assms(1)] handleVideoViewerOpen_fields)
next
  case CloseViewer
  then show ?thesis
    by (simp add: same_collections_implies[OF assms(1)] closeViewer_def)
next
  case (ResolveAlert i)
  then show ?thesis by (simp add: fireImpliesActive_resetFire[OF handleResolveAlert_fields(2)])
next
  case (RequestResponse a)
  then show ?thesis by (simp add: fireImpliesActive_resetFire[OF handleRequestResponse_fields(2)])
qed

lemma run_fireIffActive:
  "fireIffActive s \<Longrightarrow> \<forall>e\<in>set evs. \<not> isScan e \<and> \<not> isCommand e \<Longrightarrow> fireIffActive (run evs s)"
proof (induction evs arbitrary: s)
  case Nil
  then show ?case by simp
next
  case (Cons e evs)
  from Cons.prems have "fireIffActive (step e s)" by (simp add: step_fireIffActive)
  with Cons.prems Cons.IH[of "step e s"] show ?case by simp
qed

lemma run_fireImpliesActive:
  "fireImpliesActive s \<Longrightarrow> \<forall>e\<in>set evs. \<not> isScan e \<Longrightarrow> fireImpliesActive (run evs s)"
proof (induction evs arbitrary: s)
  case Nil
  then show ?case by simp
next
  case (Cons e evs)
  from Cons.prems have "fireImpliesActive (step e s)" by (simp add: step_fireImpliesActive)
  with Cons.prems Cons.IH[of "step e s"] show ?case by simp
qed

lemma mountedState_fireIffActive: "fireIffActive mountedState"
  by (simp add: fireIffActive_def mountedState_def mountCameras_def initialState_def initialCameras_def
      mkCamera_def activeFor_def)

lemma fireIff_imp: "fireIffActive s \<Longrightarrow> fireImpliesActive s"
  by (simp add: fireIffActive_def fireImpliesActive_def list_all_iff)

lemma step_useBackend: "\<not> useBackend s \<Longrightarrow> \<not> useBackend (step e s)"
  by (cases e)
     (simp_all add: clockTick_def fireWindowEffectBackend_def fireWindowEffect_fields checkBackend_def
       performBackendScan_def handleVideoViewerOpen_fields closeViewer_def handleResolveAlert_fields
       handleRequestResponse_fields split: scan_outcome.splits)

lemma run_useBackend: "\<not> useBackend s \<Longrightarrow> \<not> useBackend (run evs s)"
  by (induction evs arbitrary: s) (simp_all add: step_useBackend)

lemma run_append: "run (xs @ ys) s = run ys (run xs s)"
  by (induction xs arbitrary: s) simp_all

lemma exSession_unfold: "exSession = [Tick, FireWindow exEnv, Tick, FireWindow exEnv, Tick, FireWindow exEnv,
  Tick, FireWindow exEnv, Tick, FireWindow exEnv, Tick, FireWindow exEnv, Tick, FireWindow exEnv,
  Tick, FireWindow exEnv, Tick, FireWindow exEnv, Tick, FireWindow exEnv, Tick, FireWindow exEnv,
  Tick, FireWindow exEnv, Tick, FireWindow exEnv, Tick, FireWindow exEnv, Tick, FireWindow exEnv,
  Tick, FireWindow exEnv, Tick, FireWindow exEnv, Tick, FireWindow exEnv, Tick, FireWindow exEnv]"
  by (simp add: exSession_def eval_nat_numeral)

lemma exSession_reaches: "run exSession mountedState = exBurning"
  unfolding exSession_unfold
  by (simp add: eval_defs exBurning_def exAlertA_def exAlertB_def exCamA_def exCamB_def)

lemma exSession_events: "\<forall>e\<in>set exSession. \<not> isScan e \<and> \<not> isCommand e"
  by (simp add: exSession_unfold)

lemma exBurning_fields:
  "alerts exBurning = [exAlertB, exAlertA]"
  "map cid (cameras exBurning) = [''cam-1'', ''cam-2'', ''cam-3'', ''cam-4'', ''cam-5'']"
  "map cstatus (cameras exBurning) = [''fire'', ''normal'', ''normal'', ''fire'', ''normal'']"
  "simulationTime exBurning = 19000"
  "backendConnected exBurning = False"
  by (simp_all add: exBurning_def eval_defs)

lemma exAlert_fields:
  "aid exAlertA = ''1730000000123cam-1''" "cameraId exAlertA = ''cam-1''" "astatus exAlertA = Active"
  "aid exAlertB = ''1730000000123cam-4''" "cameraId exAlertB = ''cam-4''" "astatus exAlertB = Active"
  by (simp_all add: ex_defs toString_ex)

lemma exFourTicks_unfold: "exFourTicks = [Tick, FireWindow exEnv, Tick, FireWindow exEnv,
  Tick, FireWindow exEnv, Tick, FireWindow exEnv]"
  by (simp add: exFourTicks_def eval_nat_numeral)

lemma exDouble_run:
  "map cameraId (alerts (run exFourTicks exDouble)) = [''cam-1''] \<and>
   simulationTime (run exFourTicks exDouble) = 17000"
  unfolding exFourTicks_unfold by (simp add: exDouble_def eval_defs)

lemma exGuard_run:
  "run [ResolveAlert (aid exAlertA), Tick, FireWindow exEnv] exBurning =
     mountedState\<lparr>alerts := [exAlertB, exAlertA\<lparr>astatus := Resolved\<rparr>], simulationTime := 20000\<rparr>"
  by (simp add: exBurning_def eval_defs handleResolveAlert_def resolveAlerts_def resetFire_def exAlert_fields)

lemma exSession_prefix: "run (take 28 exSession) mountedState = mountedState\<lparr>alerts := [exAlertA],
     cameras := setFire ''cam-1'' 0.9 initialCameras, simulationTime := 14000\<rparr>"
  unfolding exSession_unfold
  by (simp add: eval_defs exAlertA_def exCamA_def)

section \<open>Resolution and response dispatch\<close>

text \<open>
  Claim C2. For every alert id and every state, \<^verbatim>\<open>handleResolveAlert\<close> turns every camera
  whose status is "fire" into the same camera with status "normal" and confidence 0,
  whichever camera the alert belongs to, and every alert carrying that id is "resolved"
  afterwards.
\<close>

theorem handleResolveAlert_resets_every_fire_camera:
  "length (cameras (handleResolveAlert alertId s)) = length (cameras s) \<and>
   (\<forall>i < length (cameras s). cstatus (cameras s ! i) = ''fire'' \<longrightarrow>
       cameras (handleResolveAlert alertId s) ! i = (cameras s ! i)\<lparr>cstatus := ''normal'', cconfidence := 0\<rparr>) \<and>
   (\<forall>a \<in> set (alerts (handleResolveAlert alertId s)). aid a = alertId \<longrightarrow> astatus a = Resolved)"
  unfolding handleResolveAlert_fields
  using resolveAlerts_matching[of _ alertId "alerts s"]
  by (simp add: resetFire_length resetFire_nth)

theorem handleResolveAlert_resets_every_fire_camera_witness:
  "(1::nat) < length (cameras exTwoFires) \<and> cstatus (cameras exTwoFires ! 1) = ''fire'' \<and>
   cameraId exAlertA \<noteq> cid (cameras exTwoFires ! 1) \<and>
   cameras (handleResolveAlert (aid exAlertA) exTwoFires) ! 1 = exCamB \<and>
   exAlertA\<lparr>astatus := Resolved\<rparr> \<in> set (alerts (handleResolveAlert (aid exAlertA) exTwoFires)) \<and>
   astatus (exAlertA\<lparr>astatus := Resolved\<rparr>) = Resolved"
  using handleResolveAlert_resets_every_fire_camera [of "aid exAlertA" exTwoFires]
  by (simp add: ex_defs handleResolveAlert_def resolveAlerts_def resetFire_def)

text \<open>
  Claim C5. \<^verbatim>\<open>handleRequestResponse\<close> adds exactly 1 to the responses-sent counter, and
  afterwards every alert with the given alert's id is resolved; if the given alert was in
  the list, its resolved copy is in the list, also when it was resolved already.
\<close>

theorem handleRequestResponse_counts_and_resolves:
  "responsesSent (handleRequestResponse alert s) = responsesSent s + 1 \<and>
   (\<forall>a \<in> set (alerts (handleRequestResponse alert s)). aid a = aid alert \<longrightarrow> astatus a = Resolved) \<and>
   (alert \<in> set (alerts s) \<longrightarrow> alert\<lparr>astatus := Resolved\<rparr> \<in> set (alerts (handleRequestResponse alert s)))"
proof -
  have "alert \<in> set (alerts s) \<Longrightarrow> alert\<lparr>astatus := Resolved\<rparr> \<in> set (resolveAlerts (aid alert) (alerts s))"
    unfolding resolveAlerts_def set_map by (rule image_eqI[where x = alert]) simp_all
  then show ?thesis
    by (simp add: handleRequestResponse_def handleResolveAlert_fields)
       (use resolveAlerts_matching in blast)
qed

theorem handleRequestResponse_counts_and_resolves_witness:
  "exAlertA\<lparr>astatus := Resolved\<rparr> \<in> set (alerts exResolved) \<and>
   responsesSent exResolved = 3 \<and>
   responsesSent (handleRequestResponse (exAlertA\<lparr>astatus := Resolved\<rparr>) exResolved) = 4 \<and>
   alerts (handleRequestResponse (exAlertA\<lparr>astatus := Resolved\<rparr>) exResolved) = [exAlertA\<lparr>astatus := Resolved\<rparr>]"
  using handleRequestResponse_counts_and_resolves [of "exAlertA\<lparr>astatus := Resolved\<rparr>" exResolved]
  by (simp add: ex_defs handleRequestResponse_def handleResolveAlert_def resolveAlerts_def)

text \<open>
  Claim C8. Resolution keeps the ledger's length; position by position, an alert is
  replaced by its resolved copy exactly when its id matches and it was active, and is
  left as it was otherwise; when no alert with that id is active (none has the id, or
  those that have it are resolved) the ledger is unchanged.
\<close>

theorem handleResolveAlert_ledger_in_place:
  "length (alerts (handleResolveAlert alertId s)) = length (alerts s) \<and>
   (\<forall>i<length (alerts s). alerts (handleResolveAlert alertId s) ! i =
      (if aid (alerts s ! i) = alertId \<and> astatus (alerts s ! i) = Active
       then (alerts s ! i)\<lparr>astatus := Resolved\<rparr> else alerts s ! i)) \<and>
   ((\<forall>a\<in>set (alerts s). aid a = alertId \<longrightarrow> astatus a = Resolved) \<longrightarrow>
      alerts (handleResolveAlert alertId s) = alerts s)"
proof -
  have *: "astatus a \<noteq> Active \<Longrightarrow> a\<lparr>astatus := Resolved\<rparr> = a" for a :: FireAlert
    by (cases "astatus a") simp_all
  have "\<forall>i<length (alerts s). resolveAlerts alertId (alerts s) ! i =
      (if aid (alerts s ! i) = alertId \<and> astatus (alerts s ! i) = Active
       then (alerts s ! i)\<lparr>astatus := Resolved\<rparr> else alerts s ! i)"
    by (simp add: resolveAlerts_nth *)
  then show ?thesis
    by (simp add: handleResolveAlert_fields resolveAlerts_length resolveAlerts_noop)
qed

theorem handleResolveAlert_ledger_in_place_witness:
  "(1::nat) < length (alerts exTwoFires) \<and>
   (aid (alerts exTwoFires ! 1) = aid exAlertA \<and> astatus (alerts exTwoFires ! 1) = Active) \<and>
   alerts (handleResolveAlert (aid exAlertA) exTwoFires) ! 1 = (alerts exTwoFires ! 1)\<lparr>astatus := Resolved\<rparr> \<and>
   list_all (\<lambda>a. aid a = aid exAlertA \<and> astatus a = Resolved) (alerts exResolved) \<and>
   alerts (handleResolveAlert (aid exAlertA) exResolved) = alerts exResolved"
proof -
  have len: "(1::nat) < length (alerts exTwoFires)"
    by (simp add: exTwoFires_def)
  have hit: "aid (alerts exTwoFires ! 1) = aid exAlertA \<and> astatus (alerts exTwoFires ! 1) = Active"
    by (simp add: exTwoFires_def exAlertA_def newAlert_def)
  have res: "\<forall>a\<in>set (alerts exResolved). aid a = aid exAlertA \<longrightarrow> astatus a = Resolved"
    by (simp add: exResolved_def)
  have changed: "alerts (handleResolveAlert (aid exAlertA) exTwoFires) ! 1 = (alerts exTwoFires ! 1)\<lparr>astatus := Resolved\<rparr>"
    using handleResolveAlert_ledger_in_place [of "aid exAlertA" exTwoFires, THEN conjunct2, THEN conjunct1, rule_format, of 1]
      len hit by simp
  have same: "alerts (handleResolveAlert (aid exAlertA) exResolved) = alerts exResolved"
    using handleResolveAlert_ledger_in_place [of "aid exAlertA" exResolved, THEN conjunct2, THEN conjunct2] res
    by blast
  have res': "list_all (\<lambda>a. aid a = aid exAlertA \<and> astatus a = Resolved) (alerts exResolved)"
    by (simp add: exResolved_def)
  from len hit res' changed same show ?thesis by blast
qed

text \<open>
  Claim C10. Whatever the id (no assumption is made that it names an alert),
  \<^verbatim>\<open>handleResolveAlert\<close> clears the selected alert, leaves no camera in status "fire",
  and gives every camera that was in status "fire" the status "normal" and confidence 0;
  with an id that no alert carries, all of this still happens while the ledger stays as
  it was.
\<close>

theorem handleResolveAlert_unmatched_id_still_resets:
  "selectedAlert (handleResolveAlert alertId s) = None \<and>
   (\<forall>c \<in> set (cameras (handleResolveAlert alertId s)). cstatus c \<noteq> ''fire'') \<and>
   (\<forall>i < length (cameras s). cstatus (cameras s ! i) = ''fire'' \<longrightarrow>
       cstatus (cameras (handleResolveAlert alertId s) ! i) = ''normal'' \<and>
       cconfidence (cameras (handleResolveAlert alertId s) ! i) = 0) \<and>
   (alertId \<notin> aid ` set (alerts s) \<longrightarrow> alerts (handleResolveAlert alertId s) = alerts s)"
proof -
  have "alertId \<notin> aid ` set (alerts s) \<Longrightarrow> resolveAlerts alertId (alerts s) = alerts s"
    by (rule resolveAlerts_noop) blast
  moreover have "\<forall>c \<in> set (resetFire (cameras s)). cstatus c \<noteq> ''fire''"
    using resetFire_no_fire by blast
  ultimately show ?thesis
    by (simp add: handleResolveAlert_fields resetFire_nth)
qed

theorem handleResolveAlert_unmatched_id_still_resets_witness:
  "''no-such-id'' \<notin> aid ` set (alerts exTwoFires) \<and>
   selectedAlert exTwoFires = Some exAlertB \<and>
   selectedAlert (handleResolveAlert ''no-such-id'' exTwoFires) = None \<and>
   (0::nat) < length (cameras exTwoFires) \<and> cstatus (cameras exTwoFires ! 0) = ''fire'' \<and>
   cstatus (cameras (handleResolveAlert ''no-such-id'' exTwoFires) ! 0) = ''normal'' \<and>
   cconfidence (cameras (handleResolveAlert ''no-such-id'' exTwoFires) ! 0) = 0 \<and>
   alerts (handleResolveAlert ''no-such-id'' exTwoFires) = alerts exTwoFires"
  using handleResolveAlert_unmatched_id_still_resets [of "''no-such-id''" exTwoFires]
  by (simp add: ex_defs toString_ex)

section \<open>Applying a scan response\<close>

text \<open>
  Claim C7. When a scan response is applied, a camera whose id does not occur among
  the response's \<^verbatim>\<open>camera_id\<close>s is left exactly as it was (status, confidence and all
  other fields), and the camera list keeps its length.
\<close>

theorem performBackendScan_absent_camera_unchanged:
  "i < length (cameras s) \<Longrightarrow> cid (cameras s ! i) \<notin> camera_id ` set result \<Longrightarrow>
   length (cameras (performBackendScan (ScanResult result) s)) = length (cameras s) \<and>
   cameras (performBackendScan (ScanResult result) s) ! i = cameras s ! i"
  by (simp add: performBackendScan_def applyScan_def find_absent)

theorem performBackendScan_absent_camera_unchanged_witness:
  "(2::nat) < length (cameras exConnected) \<and> backendConnected exConnected \<and>
   cid (cameras exConnected ! 2) = ''cam-3'' \<and>
   cid (cameras exConnected ! 2) \<notin> camera_id ` set exScan \<and>
   cameras (performBackendScan (ScanResult exScan) exConnected) ! 2 = cameras exConnected ! 2 \<and>
   cstatus (cameras (performBackendScan (ScanResult exScan) exConnected) ! 0) = ''fire''"
  using performBackendScan_absent_camera_unchanged [of 2 exConnected exScan]
  by (simp add: ex_defs mountedState_def initialState_def initialCameras_def mountCameras_def checkBackend_def
      performBackendScan_def applyScan_def)

section \<open>Alert identifiers\<close>

text \<open>
  Claim C9. Two alerts built from the same \<^verbatim>\<open>Date.now()\<close> value for cameras with
  different ids have different ids: the id is the decimal timestamp followed by the
  camera id.
\<close>

theorem newAlert_ids_differ_in_same_tick:
  "dateNow r1 = dateNow r2 \<Longrightarrow> cid c1 \<noteq> cid c2 \<Longrightarrow>
   aid (newAlert r1 conf1 c1) = toString (dateNow r1) @ cid c1 \<and>
   aid (newAlert r1 conf1 c1) \<noteq> aid (newAlert r2 conf2 c2)"
  by (simp add: newAlert_def)

theorem newAlert_ids_differ_in_same_tick_witness:
  "dateNow exReading = dateNow exReading \<and> cid exCamA \<noteq> cid exCamB \<and>
   aid (newAlert exReading 0.9 exCamA) = ''1730000000123cam-1'' \<and>
   aid (newAlert exReading 0.9 exCamB) = ''1730000000123cam-4'' \<and>
   aid (newAlert exReading 0.9 exCamA) \<noteq> aid (newAlert exReading 0.9 exCamB)"
  using newAlert_ids_differ_in_same_tick [of exReading exReading exCamA exCamB "0.9" "0.9"]
  by (simp add: ex_defs toString_ex)

section \<open>Alert creation\<close>

text \<open>
  Claim C6. The fire-window effect leaves the old alerts in place, as a suffix, and puts
  the alerts it creates in front of them, the last created first (the backend-aware
  effect does the same in simulated mode and nothing otherwise). In particular, when
  the camera list is A, B and both cameras trigger, the resulting list starts with B's
  alert, then A's.
\<close>

theorem fireWindowEffect_prepends_created_alerts:
  "alerts (fireWindowEffect env s) =
     rev (createdAlerts env (simulationTime s) (alerts s) 0 (cameras s)) @ alerts s \<and>
   alerts (fireWindowEffectBackend env s) =
     (if simulatedMode s then rev (createdAlerts env (simulationTime s) (alerts s) 0 (cameras s)) else []) @ alerts s \<and>
   (cameras s = [A, B] \<and> triggers (simulationTime s) (alerts s) A \<and> triggers (simulationTime s) (alerts s) B \<longrightarrow>
      alerts (fireWindowEffect env s) =
        newAlert (env 1) (0.8 + mathRandom (env 1) * 0.2) B #
        newAlert (env 0) (0.8 + mathRandom (env 0) * 0.2) A # alerts s)"
  by (simp add: fireWindowEffect_fields(1) fireWindowEffectBackend_def)

theorem fireWindowEffect_prepends_created_alerts_witness:
  "cameras exPair = [exCamA, exCamC] \<and>
   triggers (simulationTime exPair) (alerts exPair) exCamA \<and>
   triggers (simulationTime exPair) (alerts exPair) exCamC \<and>
   map cameraId (alerts (fireWindowEffect exEnv exPair)) = [''cam-2'', ''cam-1''] \<and>
   map cameraId (alerts (run exSession mountedState)) = [''cam-4'', ''cam-1'']"
proof -
  have c: "cameras exPair = [exCamA, exCamC]"
    by (simp add: exPair_def)
  have a: "triggers (simulationTime exPair) (alerts exPair) exCamA"
    by (simp add: exPair_def initialState_def triggers_def isFireTimeWindow_def hasExistingAlert_def exCamA_def mkCamera_def)
  have b: "triggers (simulationTime exPair) (alerts exPair) exCamC"
    by (simp add: exPair_def initialState_def triggers_def isFireTimeWindow_def hasExistingAlert_def exCamC_def mkCamera_def)
  from fireWindowEffect_prepends_created_alerts [of exEnv exPair exCamA exCamC] a b c
  have "alerts (fireWindowEffect exEnv exPair) =
        newAlert (exEnv 1) (0.8 + mathRandom (exEnv 1) * 0.2) exCamC #
        newAlert (exEnv 0) (0.8 + mathRandom (exEnv 0) * 0.2) exCamA # alerts exPair"
    by blast
  then have "map cameraId (alerts (fireWindowEffect exEnv exPair)) = [''cam-2'', ''cam-1'']"
    by (simp add: newAlert_def exPair_def initialState_def exCamA_def exCamC_def mkCamera_def)
  with a b c show ?thesis
    by (simp add: exSession_reaches exBurning_fields exAlert_fields)
qed

text \<open>
  Claim C4. From the mounted page, whatever events follow (ticks, fire-window effects,
  health probes, scans, opening and closing the viewer, resolutions, responses), no
  camera id has more than one active alert. The same holds from any state whose camera
  ids are distinct and which has at most one active alert per camera id: with a camera
  scheduled at 15000 ms and 15800 ms, four ticks across both windows leave one alert, and
  a camera reset to "normal" while its alert stays active gets no second alert in its
  next window.
\<close>

theorem at_most_one_active_alert_per_camera:
  "(distinct (map cid (cameras s)) \<and> (\<forall>k. activeCount k (alerts s) \<le> 1) \<longrightarrow>
      activeCount k (alerts (run evs s)) \<le> 1) \<and>
   activeCount k (alerts (run evs mountedState)) \<le> 1"
  using run_ledger_inv[of s evs] run_ledger_inv[of mountedState evs] mountedState_ledger_inv
  by blast

theorem at_most_one_active_alert_per_camera_witness:
  "(distinct (map cid (cameras exDouble)) \<and> (\<forall>k. activeCount k (alerts exDouble) \<le> 1)) \<and>
   map cameraId (alerts (run exFourTicks exDouble)) = [''cam-1''] \<and>
   activeCount ''cam-1'' (alerts (run exFourTicks exDouble)) \<le> 1 \<and>
   isFireTimeWindow 20000 exCamB \<and>
   cameras (run (exSession @ [ResolveAlert (aid exAlertA), Tick, FireWindow exEnv]) mountedState) = initialCameras \<and>
   alerts (run (exSession @ [ResolveAlert (aid exAlertA), Tick, FireWindow exEnv]) mountedState)
     = [exAlertB, exAlertA\<lparr>astatus := Resolved\<rparr>] \<and>
   activeCount ''cam-4'' (alerts (run (exSession @ [ResolveAlert (aid exAlertA), Tick, FireWindow exEnv]) mountedState)) \<le> 1"
proof -
  have hyp: "distinct (map cid (cameras exDouble)) \<and> (\<forall>k. activeCount k (alerts exDouble) \<le> 1)"
    by (simp add: exDouble_def initialState_def activeCount_def)
  have win: "isFireTimeWindow 20000 exCamB"
    by (simp add: isFireTimeWindow_def exCamB_def mkCamera_def)
  have guard: "run (exSession @ [ResolveAlert (aid exAlertA), Tick, FireWindow exEnv]) mountedState =
     mountedState\<lparr>alerts := [exAlertB, exAlertA\<lparr>astatus := Resolved\<rparr>], simulationTime := 20000\<rparr>"
    by (simp only: run_append exSession_reaches exGuard_run)
  have cams: "cameras (mountedState\<lparr>alerts := [exAlertB, exAlertA\<lparr>astatus := Resolved\<rparr>], simulationTime := 20000\<rparr>) = initialCameras"
    by (simp add: mountedState_def mountCameras_def)
  from hyp win at_most_one_active_alert_per_camera [of exDouble "''cam-1''" exFourTicks]
    at_most_one_active_alert_per_camera [of mountedState "''cam-4''" "exSession @ [ResolveAlert (aid exAlertA), Tick, FireWindow exEnv]"]
    exDouble_run cams
  show ?thesis unfolding guard by simp
qed

section \<open>Camera status and the ledger\<close>

text \<open>
  Claim C1, as amended. As long as only ticks, fire-window effects, health probes and
  opening or closing the viewer occur, a camera's status is "fire" exactly when an active
  alert carries its id. When resolutions and responses are also allowed (everything but
  the application of a backend scan), every camera whose status is "fire" still has an
  active alert carrying its id.
\<close>

theorem fire_status_follows_ledger_in_simulation:
  "((\<forall>e\<in>set evs. \<not> isScan e \<and> \<not> isCommand e) \<longrightarrow> fireIffActive (run evs mountedState)) \<and>
   ((\<forall>e\<in>set evs. \<not> isScan e) \<longrightarrow> fireImpliesActive (run evs mountedState))"
  using run_fireIffActive[OF mountedState_fireIffActive, of evs]
    run_fireImpliesActive[OF fireIff_imp[OF mountedState_fireIffActive], of evs]
  by blast

theorem fire_status_follows_ledger_in_simulation_witness:
  "list_all (\<lambda>e. \<not> isScan e \<and> \<not> isCommand e) exSession \<and>
   fireIffActive (run exSession mountedState) \<and>
   map cstatus (cameras (run exSession mountedState)) = [''fire'', ''normal'', ''normal'', ''fire'', ''normal''] \<and>
   list_all (\<lambda>e. \<not> isScan e) (exSession @ [ResolveAlert (aid exAlertA)]) \<and>
   fireImpliesActive (run (exSession @ [ResolveAlert (aid exAlertA)]) mountedState)"
  using fire_status_follows_ledger_in_simulation [of exSession]
    fire_status_follows_ledger_in_simulation [of "exSession @ [ResolveAlert (aid exAlertA)]"]
    exSession_events
  by (simp add: exSession_reaches exBurning_fields list_all_iff)

text \<open>
  The equivalence of claim C1 as stated fails. In the session above both \<^verbatim>\<open>cam-1\<close> and
  \<^verbatim>\<open>cam-4\<close> burn; resolving the alert of \<^verbatim>\<open>cam-1\<close> resets \<^verbatim>\<open>cam-4\<close> as well, whose
  alert stays active. And a scan that reports fire for \<^verbatim>\<open>cam-1\<close> sets its status with no
  alert in the ledger.
\<close>

theorem fire_iff_active_fails_after_resolve_and_scan:
  "\<not> fireIffActive (run (exSession @ [ResolveAlert (aid exAlertA)]) mountedState) \<and>
   \<not> fireIffActive (run [HealthProbe True, BackendScan (ScanResult exScan)] mountedState)"
proof -
  have "\<not> fireIffActive (handleResolveAlert (aid exAlertA) exBurning)"
    by (simp add: fireIffActive_def activeFor_def handleResolveAlert_def resolveAlerts_def resetFire_def
        exBurning_def eval_defs exAlert_fields)
  moreover have "\<not> fireIffActive (run [HealthProbe True, BackendScan (ScanResult exScan)] mountedState)"
    by (simp add: fireIffActive_def activeFor_def performBackendScan_def applyScan_def checkBackend_def
        exScan_def eval_defs)
  ultimately show ?thesis
    by (simp add: run_append exSession_reaches)
qed

section \<open>Service-backed and simulated mode\<close>

text \<open>
  Claim C3, as amended. A scan call that throws, or a scan requested while the backend is
  not connected, switches \<^verbatim>\<open>useBackend\<close> off; once it is off the page is in simulated
  mode after every further sequence of events, whatever later health probes return. A
  health probe that returns false gives simulated mode, and a probe that returns true
  while \<^verbatim>\<open>useBackend\<close> is on gives service-backed mode.
\<close>

theorem useBackend_off_is_permanent:
  "\<not> useBackend (performBackendScan ScanThrew s) \<and>
   (\<not> backendConnected s \<longrightarrow> \<not> useBackend (performBackendScan r s)) \<and>
   (\<not> useBackend s \<longrightarrow> simulatedMode (run evs s)) \<and>
   simulatedMode (checkBackend False s) \<and>
   (useBackend s \<longrightarrow> \<not> simulatedMode (checkBackend True s))"
  using run_useBackend[of s evs]
  by (simp add: performBackendScan_def simulatedMode_def checkBackend_def)

theorem useBackend_off_is_permanent_witness:
  "\<not> backendConnected mountedState \<and>
   \<not> useBackend (performBackendScan ScanNull mountedState) \<and>
   simulatedMode (run [HealthProbe True, Tick, FireWindow exEnv] (performBackendScan ScanNull mountedState)) \<and>
   backendConnected (run [HealthProbe True, Tick, FireWindow exEnv] (performBackendScan ScanNull mountedState)) \<and>
   useBackend mountedState \<and> \<not> simulatedMode (checkBackend True mountedState)"
  using useBackend_off_is_permanent [of mountedState ScanNull "[]"]
    useBackend_off_is_permanent [of "performBackendScan ScanNull mountedState" ScanNull "[HealthProbe True, Tick, FireWindow exEnv]"]
  by (simp add: eval_defs checkBackend_def performBackendScan_def)

text \<open>
  Claim C3 as stated fails for the health probe: after a probe that returned false and a
  later one that returned true the page is not in simulated mode, and fourteen ticks
  later \<^verbatim>\<open>cam-1\<close>'s window has produced no alert, where the simulated session has one.
\<close>

theorem health_probe_restores_service_mode:
  "\<not> simulatedMode (run [HealthProbe False, HealthProbe True] mountedState) \<and>
   alerts (run ([HealthProbe False, HealthProbe True] @ take 28 exSession) mountedState) = [] \<and>
   alerts (run (take 28 exSession) mountedState) = [exAlertA]"
proof -
  have "run ([HealthProbe False, HealthProbe True] @ take 28 exSession) mountedState =
     mountedState\<lparr>simulationTime := 14000, backendConnected := True\<rparr>"
    unfolding exSession_unfold by (simp add: eval_defs checkBackend_def)
  then show ?thesis
    by (simp add: exSession_prefix) (simp add: eval_defs checkBackend_def)
qed

end
